theory Spec2Isabelle
  imports Main
begin

section \<open>Diagnostic message formatting (libnixf/src/Basic/Diagnostic.cpp)\<close>

text \<open>
  \<^verbatim>\<open>simpleFormat(const char *Fmt, const std::vector<std::string> &Args)\<close> scans the
  NUL-terminated format string. \<open>Fmt\<close> is modelled by the characters before the
  terminator, so \<^verbatim>\<open>*(Cur + 1)\<close> at the last character reads the terminator, which is
  not a closing brace. \<^verbatim>\<open>Args[ArgIdx++]\<close> on a \<^verbatim>\<open>std::vector\<close> is unchecked: an index
  at or beyond \<^verbatim>\<open>Args.size()\<close> is an out-of-bounds read, which the model makes the
  value \<open>Inl OutOfBounds\<close>. The string stream \<open>SS\<close> is the text written so far.
\<close>

datatype FormatError = OutOfBounds

fun simpleFormat_loop :: "string \<Rightarrow> string list \<Rightarrow> nat \<Rightarrow> string \<Rightarrow> FormatError + string" where
  "simpleFormat_loop [] Args ArgIdx SS = Inr SS"
| "simpleFormat_loop [c] Args ArgIdx SS = Inr (SS @ [c])"
| "simpleFormat_loop (c # d # Cur) Args ArgIdx SS =
     (if c = CHR ''{'' \<and> d = CHR ''}'' then
        (if ArgIdx < length Args
         then simpleFormat_loop Cur Args (ArgIdx + 1) (SS @ Args ! ArgIdx)
         else Inl OutOfBounds)
      else simpleFormat_loop (d # Cur) Args ArgIdx (SS @ [c]))"

definition simpleFormat :: "string \<Rightarrow> string list \<Rightarrow> FormatError + string" where
  "simpleFormat Fmt Args = simpleFormat_loop Fmt Args 0 []"

text \<open>
  A \<^verbatim>\<open>PartialDiagnostic\<close> holds its arguments; \<^verbatim>\<open>message()\<close> is the table lookup of
  the kind's message (the tables, \<^verbatim>\<open>DiagnosticKinds.inc\<close> and \<^verbatim>\<open>NoteKinds.inc\<close>, are
  generated files), so the record carries the message the lookup returns.
\<close>

record PartialDiagnostic =
  message :: string
  Args :: "string list"

definition format :: "PartialDiagnostic \<Rightarrow> FormatError + string" where
  "format PD = simpleFormat (message PD) (Args PD)"

subsection \<open>What the format string says, independently of the scan\<close>

text \<open>The number of occurrences of the two-character text \<open>{}\<close> in a string.\<close>

fun placeholders :: "string \<Rightarrow> nat" where
  "placeholders (c # d # cs) =
     (if c = CHR ''{'' \<and> d = CHR ''}'' then 1 else 0) + placeholders (d # cs)"
| "placeholders cs = 0"

text \<open>
  A format string is its pieces joined by \<open>{}\<close>; substituting puts the i-th argument
  where the i-th \<open>{}\<close> stood and leaves the pieces as they are.
\<close>

fun joinPieces :: "string list \<Rightarrow> string" where
  "joinPieces [] = []"
| "joinPieces [P] = P"
| "joinPieces (P # Q # Ps) = P @ ''{}'' @ joinPieces (Q # Ps)"

fun substitute :: "string list \<Rightarrow> string list \<Rightarrow> string" where
  "substitute [] As = []"
| "substitute [P] As = P"
| "substitute (P # Q # Ps) [] = P"
| "substitute (P # Q # Ps) (A # As) = P @ A @ substitute (Q # Ps) As"

fun consHead :: "char \<Rightarrow> string list \<Rightarrow> string list" where
  "consHead c [] = [[c]]"
| "consHead c (P # Ps) = (c # P) # Ps"

text \<open>The pieces of a format string: the texts between its occurrences of \<open>{}\<close>.\<close>

fun splitPieces :: "string \<Rightarrow> string list" where
  "splitPieces [] = [[]]"
| "splitPieces [c] = [[c]]"
| "splitPieces (c # d # cs) =
     (if c = CHR ''{'' \<and> d = CHR ''}'' then [] # splitPieces cs
      else consHead c (splitPieces (d # cs)))"


section \<open>Protocol and analysis data read by the completion code\<close>

text \<open>
  The types below are declared in headers of the language server
  (\<^verbatim>\<open>lspserver/Protocol.h\<close>, \<^verbatim>\<open>nixd/Protocol/AttrSet.h\<close>, the variable lookup analysis);
  the model keeps the members that \<^verbatim>\<open>Completion.cpp\<close> reads or writes. A member left
  out of a designated initialiser has its default: an empty string, an empty optional.
\<close>

datatype CompletionItemKind = Missing | Keyword | Variable | Field | OtherKind nat

datatype MarkupKind = PlainText | Markdown

record MarkupContent =
  MarkupContent_kind :: MarkupKind
  MarkupContent_value :: string

record CompletionItem =
  label :: string
  kind :: CompletionItemKind
  detail :: string
  documentation :: "MarkupContent option"
  data :: string

record CompletionList =
  isIncomplete :: bool
  items :: "CompletionItem list"

record Definition =
  isBuiltin :: bool

text \<open>
  An \<^verbatim>\<open>EnvNode\<close> has a parent pointer (null at the root) and its definitions;
  \<open>defs\<close> is the sequence of entries that the range-based \<^verbatim>\<open>for\<close> over
  \<^verbatim>\<open>Env->defs()\<close> visits, in that order. The pointer to the definition of an
  entry is not null, which the source asserts before it reads the definition. A
  \<^verbatim>\<open>const EnvNode *\<close> is an \<open>EnvNode option\<close>.
\<close>

datatype EnvNode = EnvNode (parent: "EnvNode option") (defs: "(string \<times> Definition) list")

text \<open>
  A syntax node: an identifier with its name, or a node of another kind (the other
  kinds are numbered; the source spells the identifier kind \<^verbatim>\<open>NK_Identifer\<close>).
\<close>

datatype NodeKind = NK_Identifer | NK_Other nat

datatype Node = Identifier string | OtherNode nat

fun Node_kind :: "Node \<Rightarrow> NodeKind" where
  "Node_kind (Identifier Name) = NK_Identifer"
| "Node_kind (OtherNode k) = NK_Other k"

record AttrPathCompleteParams =
  Params_Scope :: "string list"
  Params_Prefix :: string

record PackageDescription =
  Description :: "string option"
  LongDescription :: "string option"
  Version :: "string option"

text \<open>An \<^verbatim>\<open>llvm::Error\<close>, by its message.\<close>

datatype Error = Error string

text \<open>
  The client of the out-of-process evaluator. Each request takes a reply callback;
  the field gives the reply the callback is invoked with, \<open>None\<close> when the
  evaluator never replies.
\<close>

record AttrSetClient =
  attrpathComplete :: "AttrPathCompleteParams \<Rightarrow> (Error + string list) option"
  attrpathInfo :: "string list \<Rightarrow> (Error + PackageDescription) option"

text \<open>A line written with \<^verbatim>\<open>lspserver::elog\<close>: the format and its argument.\<close>

datatype LogEntry = elog string Error


section \<open>Code completion (nixd/lib/Controller/Completion.cpp)\<close>

definition MaxCompletionSize :: nat where
  "MaxCompletionSize = 30"

datatype ExceedSizeError = ExceedSizeError

text \<open>\<^verbatim>\<open>addItem\<close> throws when the vector is full; the vector is then unchanged.\<close>

definition addItem :: "CompletionItem list \<Rightarrow> CompletionItem \<Rightarrow> ExceedSizeError + CompletionItem list" where
  "addItem Items Item =
     (if length Items \<ge> MaxCompletionSize then Inl ExceedSizeError
      else Inr (Items @ [Item]))"

text \<open>\<^verbatim>\<open>std::string::starts_with\<close>.\<close>

definition starts_with :: "string \<Rightarrow> string \<Rightarrow> bool" where
  "starts_with Name P = (length P \<le> length Name \<and> take (length P) Name = P)"

text \<open>\<^verbatim>\<open>std::optional::value_or\<close>.\<close>

definition value_or :: "'a option \<Rightarrow> 'a \<Rightarrow> 'a" where
  "value_or Opt Dflt = (case Opt of None \<Rightarrow> Dflt | Some V \<Rightarrow> V)"

subsection \<open>VLACompletionProvider\<close>

definition getCompletionItemKind :: "Definition \<Rightarrow> CompletionItemKind" where
  "getCompletionItemKind Def = (if isBuiltin Def then Keyword else Variable)"

text \<open>
  The providers write into \<open>Items\<close> by reference and may leave by the exception
  of \<^verbatim>\<open>addItem\<close>: a provider returns the vector as it stands together with the
  exception in flight, if any.
\<close>

fun collectDef_loop ::
  "CompletionItem list \<Rightarrow> (string \<times> Definition) list \<Rightarrow> string \<Rightarrow>
   CompletionItem list \<times> ExceedSizeError option" where
  "collectDef_loop Items [] Prefix = (Items, None)"
| "collectDef_loop Items ((Name, Def) # Rest) Prefix =
     (if starts_with Name ''__'' then collectDef_loop Items Rest Prefix
      else if starts_with Name Prefix then
        (case addItem Items
                \<lparr>label = Name, kind = getCompletionItemKind Def, detail = [],
                 documentation = None, data = []\<rparr> of
           Inl Err \<Rightarrow> (Items, Some Err)
         | Inr Items' \<Rightarrow> collectDef_loop Items' Rest Prefix)
      else collectDef_loop Items Rest Prefix)"

function collectDef ::
  "CompletionItem list \<Rightarrow> EnvNode option \<Rightarrow> string \<Rightarrow>
   CompletionItem list \<times> ExceedSizeError option" where
  "collectDef Items None Prefix = (Items, None)"
| "collectDef Items (Some Env) Prefix =
     (case collectDef Items (parent Env) Prefix of
        (Items', Some Err) \<Rightarrow> (Items', Some Err)
      | (Items', None) \<Rightarrow> collectDef_loop Items' (defs Env) Prefix)"
  by pat_completeness auto
termination
  by (relation "measure (\<lambda>(Items, Env, Prefix). size_option size Env)")
     (auto, case_tac Env, auto)

text \<open>
  \<^verbatim>\<open>complete\<close>: the prefix is empty unless the node is an identifier. The
  environment is \<^verbatim>\<open>upEnv(Desc, VLA, PM)\<close>, a function of the node for the analyses
  of one translation unit.
\<close>

definition complete_Prefix :: "Node \<Rightarrow> string" where
  "complete_Prefix Desc =
     (if Node_kind Desc = NK_Identifer
      then (case Desc of Identifier Name \<Rightarrow> Name | OtherNode k \<Rightarrow> [])
      else [])"

definition complete ::
  "(Node \<Rightarrow> EnvNode option) \<Rightarrow> Node \<Rightarrow> CompletionItem list \<Rightarrow>
   CompletionItem list \<times> ExceedSizeError option" where
  "complete upEnv Desc Items = collectDef Items (upEnv Desc) (complete_Prefix Desc)"

subsection \<open>NixpkgsCompletionProvider\<close>

text \<open>
  Both methods create a binary semaphore \<open>Ready\<close> at 0, hand the client a
  callback that stores the reply and releases the semaphore, and then acquire it.
  The callback runs once when the evaluator replies and not at all when it does not;
  \<^verbatim>\<open>acquire\<close> on a semaphore still at 0 never returns, which is the result
  \<open>None\<close>.
\<close>

definition resolvePackage_OnReply ::
  "(Error + PackageDescription) \<Rightarrow> nat \<times> PackageDescription \<Rightarrow> nat \<times> PackageDescription" where
  "resolvePackage_OnReply Resp St =
     (case St of (Ready, Desc) \<Rightarrow>
        (case Resp of Inr R \<Rightarrow> (Suc Ready, R) | Inl Err \<Rightarrow> (Suc Ready, Desc)))"

definition resolvePackage ::
  "AttrSetClient \<Rightarrow> string list \<Rightarrow> string \<Rightarrow> CompletionItem \<Rightarrow> CompletionItem option" where
  "resolvePackage NixpkgsClient Scope Name Item =
     (let St0 = (0, \<lparr>Description = None, LongDescription = None, Version = None\<rparr>);
          Scope' = Scope @ [Name];
          St = (case attrpathInfo NixpkgsClient Scope' of
                  None \<Rightarrow> St0
                | Some Resp \<Rightarrow> resolvePackage_OnReply Resp St0)
      in case St of (Ready, Desc) \<Rightarrow>
           if Ready = 0 then None
           else Some (Item
             \<lparr>documentation := Some
                \<lparr>MarkupContent_kind = Markdown,
                 MarkupContent_value =
                   value_or (Description Desc) [] @ [CHR 0x0A, CHR 0x0A] @
                   value_or (LongDescription Desc) []\<rparr>,
              detail := value_or (Version Desc) ''?''\<rparr>))"

definition completePackages_OnReply ::
  "(Error + string list) \<Rightarrow> nat \<times> string list \<times> LogEntry list \<Rightarrow>
   nat \<times> string list \<times> LogEntry list" where
  "completePackages_OnReply Resp St =
     (case St of (Ready, Names, Log) \<Rightarrow>
        (case Resp of
           Inl Err \<Rightarrow> (Suc Ready, Names, Log @ [elog ''nixpkgs evaluator reported: {0}'' Err])
         | Inr R \<Rightarrow> (Suc Ready, R, Log)))"

text \<open>The state of \<open>Ready\<close>, \<open>Names\<close> and the log once the request is sent.\<close>

definition completePackages_wait ::
  "AttrSetClient \<Rightarrow> AttrPathCompleteParams \<Rightarrow> nat \<times> string list \<times> LogEntry list" where
  "completePackages_wait NixpkgsClient Params =
     (case attrpathComplete NixpkgsClient Params of
        None \<Rightarrow> (0, [], [])
      | Some Resp \<Rightarrow> completePackages_OnReply Resp (0, [], []))"

fun completePackages_loop ::
  "(AttrPathCompleteParams \<Rightarrow> string) \<Rightarrow> AttrPathCompleteParams \<Rightarrow>
   CompletionItem list \<Rightarrow> string list \<Rightarrow> string \<Rightarrow>
   CompletionItem list \<times> ExceedSizeError option" where
  "completePackages_loop Ser Params Items [] Prefix = (Items, None)"
| "completePackages_loop Ser Params Items (Name # Names) Prefix =
     (if starts_with Name Prefix then
        (case addItem Items
                \<lparr>label = Name, kind = Field, detail = [],
                 documentation = None, data = Ser Params\<rparr> of
           Inl Err \<Rightarrow> (Items, Some Err)
         | Inr Items' \<Rightarrow> completePackages_loop Ser Params Items' Names Prefix)
      else completePackages_loop Ser Params Items Names Prefix)"

text \<open>
  \<^verbatim>\<open>completePackages\<close>. \<open>Ser\<close> is the text \<^verbatim>\<open>llvm::formatv("{0}", toJSON(Params))\<close>.
  The source builds \<^verbatim>\<open>Params{std::move(Scope), std::move(Prefix)}\<close> and tests
  \<^verbatim>\<open>Name.starts_with(Prefix)\<close> afterwards, on the local string that was moved from.
  C++ leaves a moved-from \<^verbatim>\<open>std::string\<close> valid but unspecified (libstdc++, libc++ and
  the MSVC library leave it empty); \<open>Moved\<close> gives that state for the former
  contents, so the model takes no side.
\<close>

definition completePackages ::
  "(AttrPathCompleteParams \<Rightarrow> string) \<Rightarrow> (string \<Rightarrow> string) \<Rightarrow> AttrSetClient \<Rightarrow>
   string list \<Rightarrow> string \<Rightarrow> CompletionItem list \<Rightarrow>
   (CompletionItem list \<times> ExceedSizeError option \<times> LogEntry list) option" where
  "completePackages Ser Moved NixpkgsClient Scope Prefix Items =
     (let Params = \<lparr>Params_Scope = Scope, Params_Prefix = Prefix\<rparr>;
          Prefix' = Moved Prefix
      in case completePackages_wait NixpkgsClient Params of (Ready, Names, Log) \<Rightarrow>
           if Ready = 0 then None
           else (case completePackages_loop Ser Params Items Names Prefix' of
                   (Items', Exc) \<Rightarrow> Some (Items', Exc, Log)))"

subsection \<open>Controller\<close>

text \<open>
  What the two handlers reach through the controller: the translation units
  (\<^verbatim>\<open>getTU\<close>, \<^verbatim>\<open>getAST\<close>, both null on failure), the node under a range
  (\<^verbatim>\<open>descend\<close>), the queries of the analyses of a unit (\<^verbatim>\<open>upEnv\<close>,
  \<^verbatim>\<open>havePackageScope\<close>, \<^verbatim>\<open>getScopeAndPrefix\<close>), the evaluator's client (null when
  there is none) and the JSON functions (\<^verbatim>\<open>toJSON\<close>, \<^verbatim>\<open>llvm::formatv\<close> of a JSON
  value, \<^verbatim>\<open>llvm::json::parse\<close>, and \<^verbatim>\<open>fromJSON\<close>, which fills the parameters it is
  given in place and returns whether the value had their shape).
\<close>

record ('tu, 'ast, 'pos, 'json) Controller =
  getTU :: "string \<Rightarrow> 'tu option"
  getAST :: "'tu \<Rightarrow> 'ast option"
  descend :: "'ast \<Rightarrow> 'pos \<times> 'pos \<Rightarrow> Node option"
  upEnv :: "'tu \<Rightarrow> Node \<Rightarrow> EnvNode option"
  havePackageScope :: "'tu \<Rightarrow> Node \<Rightarrow> bool"
  getScopeAndPrefix :: "'tu \<Rightarrow> Node \<Rightarrow> string list \<times> string"
  nixpkgsClient :: "AttrSetClient option"
  toJSON :: "AttrPathCompleteParams \<Rightarrow> 'json"
  formatv :: "'json \<Rightarrow> string"
  json_parse :: "string \<Rightarrow> Error + 'json"
  fromJSON :: "'json \<Rightarrow> AttrPathCompleteParams \<Rightarrow> bool \<times> AttrPathCompleteParams"

text \<open>
  How a posted action ends: it calls \<open>Reply\<close> with a value or with an error; or
  \<^verbatim>\<open>getTU\<close> or \<^verbatim>\<open>getAST\<close> returned null (any reply is then theirs); or it
  dereferences a null \<^verbatim>\<open>nixpkgsClient()\<close>; or it waits for the evaluator for ever.
\<close>

datatype 'a Outcome = Reply 'a | ReplyError Error | NoUnit | NoTree | NullClient | Blocked

text \<open>The \<^verbatim>\<open>try\<close> block of \<^verbatim>\<open>onCompletion\<close>, its handler and the reply.\<close>

definition onCompletion_try ::
  "('tu, 'ast, 'pos, 'json) Controller \<Rightarrow> (string \<Rightarrow> string) \<Rightarrow> 'tu \<Rightarrow> Node \<Rightarrow>
   CompletionList Outcome \<times> LogEntry list" where
  "onCompletion_try C Moved TU Desc =
     (case complete (upEnv C TU) Desc [] of
        (Items, Some Err) \<Rightarrow> (Reply \<lparr>isIncomplete = True, items = Items\<rparr>, [])
      | (Items, None) \<Rightarrow>
          if havePackageScope C TU Desc then
            (case nixpkgsClient C of
               None \<Rightarrow> (NullClient, [])
             | Some NixpkgsClient \<Rightarrow>
                 (case getScopeAndPrefix C TU Desc of (Scope, Prefix) \<Rightarrow>
                    (case completePackages (\<lambda>P. formatv C (toJSON C P)) Moved
                            NixpkgsClient Scope Prefix Items of
                       None \<Rightarrow> (Blocked, [])
                     | Some (Items', Some Err, Log) \<Rightarrow>
                         (Reply \<lparr>isIncomplete = True, items = Items'\<rparr>, Log)
                     | Some (Items', None, Log) \<Rightarrow>
                         (Reply \<lparr>isIncomplete = False, items = Items'\<rparr>, Log))))
          else (Reply \<lparr>isIncomplete = False, items = Items\<rparr>, []))"

definition onCompletion ::
  "('tu, 'ast, 'pos, 'json) Controller \<Rightarrow> (string \<Rightarrow> string) \<Rightarrow> string \<Rightarrow> 'pos \<Rightarrow>
   CompletionList Outcome \<times> LogEntry list" where
  "onCompletion C Moved File Pos =
     (case getTU C File of
        None \<Rightarrow> (NoUnit, [])
      | Some TU \<Rightarrow>
          (case getAST C TU of
             None \<Rightarrow> (NoTree, [])
           | Some AST \<Rightarrow>
               (case descend C AST (Pos, Pos) of
                  None \<Rightarrow>
                    (ReplyError (Error ''cannot find corresponding node on given position''), [])
                | Some Desc \<Rightarrow> onCompletion_try C Moved TU Desc)))"

definition onCompletionItemResolve ::
  "('tu, 'ast, 'pos, 'json) Controller \<Rightarrow> CompletionItem \<Rightarrow> CompletionItem Outcome" where
  "onCompletionItemResolve C Params =
     (if data Params = [] then Reply Params
      else
        (case json_parse C (data Params) of
           Inl Err \<Rightarrow> ReplyError Err
         | Inr EV \<Rightarrow>
             (case fromJSON C EV \<lparr>Params_Scope = [], Params_Prefix = []\<rparr> of (Decoded, Req) \<Rightarrow>
                (case nixpkgsClient C of
                   None \<Rightarrow> NullClient
                 | Some NixpkgsClient \<Rightarrow>
                     (case resolvePackage NixpkgsClient (Params_Scope Req) (label Params) Params of
                        None \<Rightarrow> Blocked
                      | Some Resp \<Rightarrow> Reply Resp)))))"


section \<open>What the providers are meant to produce\<close>

text \<open>
  The bindings of one scope that a query for \<open>Prefix\<close> shows: those whose name
  starts with the prefix and does not start with two underscores, each as an item
  labelled with the name, a keyword for a builtin and a variable otherwise.
\<close>

definition scopeItems :: "string \<Rightarrow> EnvNode \<Rightarrow> CompletionItem list" where
  "scopeItems Prefix Env =
     map (\<lambda>(Name, Def).
            \<lparr>label = Name, kind = getCompletionItemKind Def, detail = [],
             documentation = None, data = []\<rparr>)
         (filter (\<lambda>(Name, Def). starts_with Name Prefix \<and> \<not> starts_with Name ''__'')
            (defs Env))"

text \<open>The scopes from the outermost ancestor down to the scope itself.\<close>

fun ancestors :: "EnvNode \<Rightarrow> EnvNode list" where
  "ancestors (EnvNode None Ds) = [EnvNode None Ds]"
| "ancestors (EnvNode (Some P) Ds) = ancestors P @ [EnvNode (Some P) Ds]"

definition reachable :: "string \<Rightarrow> EnvNode option \<Rightarrow> CompletionItem list" where
  "reachable Prefix Env =
     (case Env of None \<Rightarrow> [] | Some E \<Rightarrow> concat (map (scopeItems Prefix) (ancestors E)))"

text \<open>
  Offering the candidates \<open>Cands\<close> in order to a vector that takes no more than
  \<open>MaxCompletionSize\<close> entries: the vector afterwards, and the exception raised when a
  candidate found it full.
\<close>

definition bounded ::
  "CompletionItem list \<Rightarrow> CompletionItem list \<Rightarrow> CompletionItem list \<times> ExceedSizeError option" where
  "bounded Items Cands =
     (Items @ take (MaxCompletionSize - length Items) Cands,
      if MaxCompletionSize - length Items < length Cands then Some ExceedSizeError else None)"

text \<open>The names of a reply that start with \<open>P\<close>, each as a field item carrying the query.\<close>

definition packageItems ::
  "(AttrPathCompleteParams \<Rightarrow> string) \<Rightarrow> AttrPathCompleteParams \<Rightarrow> string \<Rightarrow> string list \<Rightarrow>
   CompletionItem list" where
  "packageItems Ser Params P Names =
     map (\<lambda>Name. \<lparr>label = Name, kind = Field, detail = [], documentation = None,
                  data = Ser Params\<rparr>)
         (filter (\<lambda>Name. starts_with Name P) Names)"

text \<open>
  The items the evaluator contributes to a completion request at node \<open>Desc\<close>: those
  of its reply when the node is in a package scope and the reply is a list of names,
  none otherwise.
\<close>

definition externalItems ::
  "('tu, 'ast, 'pos, 'json) Controller \<Rightarrow> (string \<Rightarrow> string) \<Rightarrow> 'tu \<Rightarrow> Node \<Rightarrow>
   CompletionItem list" where
  "externalItems C Moved TU Desc =
     (if havePackageScope C TU Desc then
        (case nixpkgsClient C of
           None \<Rightarrow> []
         | Some NixpkgsClient \<Rightarrow>
             (case getScopeAndPrefix C TU Desc of (Scope, Prefix) \<Rightarrow>
                (case attrpathComplete NixpkgsClient
                        \<lparr>Params_Scope = Scope, Params_Prefix = Prefix\<rparr> of
                   Some (Inr Names) \<Rightarrow>
                     packageItems (\<lambda>P. formatv C (toJSON C P))
                       \<lparr>Params_Scope = Scope, Params_Prefix = Prefix\<rparr> (Moved Prefix) Names
                 | Some (Inl Err) \<Rightarrow> []
                 | None \<Rightarrow> [])))
      else [])"


section \<open>Example inputs\<close>

definition userDef :: Definition where
  "userDef = \<lparr>isBuiltin = False\<rparr>"

definition builtinDef :: Definition where
  "builtinDef = \<lparr>isBuiltin = True\<rparr>"

text \<open>The 31 names \<open>a\<close>, \<open>aa\<close>, \<open>aaa\<close>, and so on, in ascending order.\<close>

definition manyNames :: "string list" where
  "manyNames = map (\<lambda>n. replicate (Suc n) CHR ''a'') [0..<31]"

text \<open>A root scope that binds the 31 names.\<close>

definition wideScope :: EnvNode where
  "wideScope = EnvNode None (map (\<lambda>Name. (Name, userDef)) manyNames)"

text \<open>A scope of builtins, and a scope of three user bindings below it.\<close>

definition builtinScope :: EnvNode where
  "builtinScope =
     EnvNode None [(''__add'', builtinDef), (''abort'', builtinDef), (''map'', builtinDef)]"

definition letScope :: EnvNode where
  "letScope =
     EnvNode (Some builtinScope) [(''__x'', userDef), (''ab'', userDef), (''b'', userDef)]"

text \<open>An evaluator that gives the same reply to every query of a kind.\<close>

definition replying ::
  "(Error + string list) option \<Rightarrow> (Error + PackageDescription) option \<Rightarrow> AttrSetClient" where
  "replying Names Info = \<lparr>attrpathComplete = (\<lambda>Params. Names), attrpathInfo = (\<lambda>Path. Info)\<rparr>"

text \<open>
  A small stand-in for the JSON library: a value is a number or the object of a
  query; a number does not decode to a query, and a text that is neither is not
  JSON at all.
\<close>

datatype ExampleJSON = ExampleNumber | ExampleQuery AttrPathCompleteParams

fun exampleText :: "ExampleJSON \<Rightarrow> string" where
  "exampleText ExampleNumber = ''1''"
| "exampleText (ExampleQuery P) = concat (map (\<lambda>S. S @ ''.'') (Params_Scope P)) @ Params_Prefix P"

fun exampleDecode :: "ExampleJSON \<Rightarrow> AttrPathCompleteParams \<Rightarrow> bool \<times> AttrPathCompleteParams" where
  "exampleDecode ExampleNumber R = (False, R)"
| "exampleDecode (ExampleQuery P) R = (True, P)"

definition exampleParse :: "string \<Rightarrow> Error + ExampleJSON" where
  "exampleParse Text =
     (if Text = ''1'' then Inr ExampleNumber
      else if Text = ''pkgs.he''
        then Inr (ExampleQuery \<lparr>Params_Scope = [''pkgs''], Params_Prefix = ''he''\<rparr>)
      else Inl (Error ''invalid JSON''))"

definition exampleSer :: "AttrPathCompleteParams \<Rightarrow> string" where
  "exampleSer P = exampleText (ExampleQuery P)"

text \<open>
  The state in which the common standard libraries leave a string that was moved
  from: empty.
\<close>

definition movedEmpty :: "string \<Rightarrow> string" where
  "movedEmpty P = []"

text \<open>
  A controller with one file: position 0 is inside the identifier \<open>a\<close>, position 1
  inside a node of another kind, and no node covers a later position.
\<close>

definition exampleController ::
  "EnvNode option \<Rightarrow> bool \<Rightarrow> AttrSetClient option \<Rightarrow> (unit, unit, nat, ExampleJSON) Controller" where
  "exampleController Env Pkgs Client =
     \<lparr>getTU = (\<lambda>File. if File = ''/a.nix'' then Some () else None),
      getAST = (\<lambda>TU. Some ()),
      descend = (\<lambda>AST Range.
         if fst Range = 0 then Some (Identifier ''a'')
         else if fst Range = 1 then Some (OtherNode 0)
         else None),
      upEnv = (\<lambda>TU Desc. Env),
      havePackageScope = (\<lambda>TU Desc. Pkgs),
      getScopeAndPrefix = (\<lambda>TU Desc. ([''pkgs''], complete_Prefix Desc)),
      nixpkgsClient = Client,
      toJSON = ExampleQuery,
      formatv = exampleText,
      json_parse = exampleParse,
      fromJSON = exampleDecode\<rparr>"


section \<open>Properties of the diagnostic formatter\<close>

lemma placeholders_close: "placeholders (CHR ''}'' # cs) = placeholders cs"
  by (cases cs) auto

lemma loop_total_iff:
  "i \<le> length As \<Longrightarrow>
   (\<exists>Out. simpleFormat_loop Fmt As i SS = Inr Out) \<longleftrightarrow> placeholders Fmt + i \<le> length As"
proof (induction Fmt As i SS rule: simpleFormat_loop.induct)
  case (3 c d Cur As i SS)
  then show ?case by (auto simp: placeholders_close)
qed auto

lemma loop_fail:
  "i \<le> length As \<Longrightarrow> length As < placeholders Fmt + i \<Longrightarrow>
   simpleFormat_loop Fmt As i SS = Inl OutOfBounds"
proof (induction Fmt As i SS rule: simpleFormat_loop.induct)
  case (3 c d Cur As i SS)
  then show ?case by (auto simp: placeholders_close)
qed auto

lemma loop_piece:
  "placeholders P = 0 \<Longrightarrow> rest = [] \<or> hd rest = CHR ''{'' \<Longrightarrow>
   simpleFormat_loop (P @ rest) As i SS = simpleFormat_loop rest As i (SS @ P)"
proof (induction P arbitrary: SS)
  case Nil
  then show ?case by simp
next
  case (Cons c P)
  show ?case
  proof (cases P)
    case Nil
    with Cons.prems show ?thesis by (cases rest) auto
  next
    case (Cons d P')
    with Cons.prems Cons.IH[of "SS @ [c]"] show ?thesis
      by (auto split: if_splits)
  qed
qed

lemma loop_join:
  "Ps \<noteq> [] \<Longrightarrow> \<forall>P\<in>set Ps. placeholders P = 0 \<Longrightarrow>
   length Ps \<le> Suc (length As - i) \<Longrightarrow> i \<le> length As \<Longrightarrow>
   simpleFormat_loop (joinPieces Ps) As i SS = Inr (SS @ substitute Ps (drop i As))"
proof (induction Ps arbitrary: i SS rule: joinPieces.induct)
  case 1
  then show ?case by simp
next
  case (2 P)
  then show ?case using loop_piece[of P "[]" As i SS] by simp
next
  case (3 P Q Ps)
  have lt: "i < length As" using "3.prems" by simp
  have step: "simpleFormat_loop (P @ ''{}'' @ joinPieces (Q # Ps)) As i SS
        = simpleFormat_loop (''{}'' @ joinPieces (Q # Ps)) As i (SS @ P)"
    using "3.prems" by (intro loop_piece) auto
  have d: "drop i As = As ! i # drop (Suc i) As"
    using lt by (simp add: Cons_nth_drop_Suc)
  have ih: "simpleFormat_loop (joinPieces (Q # Ps)) As (Suc i) ((SS @ P) @ As ! i)
        = Inr (((SS @ P) @ As ! i) @ substitute (Q # Ps) (drop (Suc i) As))"
    using "3.prems" lt by (intro "3.IH") auto
  show ?case using step ih lt d by simp
qed

lemma split_nonempty: "splitPieces Fmt \<noteq> []"
proof (induction Fmt rule: splitPieces.induct)
  case (3 c d cs)
  then show ?case by (cases "splitPieces (d # cs)") auto
qed auto

lemma join_more: "Ps \<noteq> [] \<Longrightarrow> joinPieces (P # Ps) = P @ ''{}'' @ joinPieces Ps"
  by (cases Ps) auto

lemma join_consHead: "Ps \<noteq> [] \<Longrightarrow> joinPieces (consHead c Ps) = c # joinPieces Ps"
  by (cases Ps rule: joinPieces.cases) auto

lemma join_split: "joinPieces (splitPieces Fmt) = Fmt"
proof (induction Fmt rule: splitPieces.induct)
  case (3 c d cs)
  then show ?case
    using split_nonempty[of cs] split_nonempty[of "d # cs"]
    by (simp add: join_more join_consHead)
qed auto

lemma hd_split: "splitPieces (d # cs) = P # Ps \<Longrightarrow> P = [] \<or> hd P = d"
proof (cases cs)
  case Nil
  assume "splitPieces (d # cs) = P # Ps"
  with Nil show ?thesis by auto
next
  case (Cons e cs')
  assume "splitPieces (d # cs) = P # Ps"
  with Cons show ?thesis
    by (cases "splitPieces (e # cs')") (auto split: if_splits)
qed

lemma placeholders_cons:
  "placeholders P = 0 \<Longrightarrow> P = [] \<or> hd P = d \<Longrightarrow> \<not> (c = CHR ''{'' \<and> d = CHR ''}'') \<Longrightarrow>
   placeholders (c # P) = 0"
  by (cases P) auto

lemma split_clean: "P \<in> set (splitPieces Fmt) \<Longrightarrow> placeholders P = 0"
proof (induction Fmt arbitrary: P rule: splitPieces.induct)
  case (3 c d cs)
  show ?case
  proof (cases "c = CHR ''{'' \<and> d = CHR ''}''")
    case True
    with 3 show ?thesis by auto
  next
    case False
    obtain Q Qs where q: "splitPieces (d # cs) = Q # Qs"
      using split_nonempty[of "d # cs"] by (cases "splitPieces (d # cs)") auto
    have "placeholders (c # Q) = 0"
      using 3(2)[OF False, of Q] q hd_split[OF q] False
      by (intro placeholders_cons[where d = d]) auto
    moreover have "\<And>R. R \<in> set Qs \<Longrightarrow> placeholders R = 0"
      using 3(2)[OF False] q by auto
    ultimately show ?thesis using 3(3) False q by auto
  qed
qed auto

lemma length_consHead: "Ps \<noteq> [] \<Longrightarrow> length (consHead c Ps) = length Ps"
  by (cases Ps) auto

lemma length_split: "length (splitPieces Fmt) = Suc (placeholders Fmt)"
proof (induction Fmt rule: splitPieces.induct)
  case (3 c d cs)
  then show ?case
    using split_nonempty[of "d # cs"]
    by (auto simp: placeholders_close length_consHead)
qed auto

text \<open>
  Claim C10. \<open>simpleFormat\<close>, and with it \<open>PartialDiagnostic::format\<close>, returns a
  text exactly when the format string has no more occurrences of \<open>{}\<close> than there
  are arguments; with fewer arguments the indexing of \<open>Args\<close> leaves its bounds.
  When it returns, the result is the format string with the i-th \<open>{}\<close> replaced by
  the i-th argument and everything else kept: for every way of writing the format
  as pieces free of \<open>{}\<close> joined by \<open>{}\<close>, the result is those pieces with the
  arguments in between, and every format string can be written so, with one piece
  more than it has placeholders. A brace that no closing brace follows belongs to a
  piece and is copied.
\<close>

theorem simpleFormat_total_iff_enough_args:
  "((\<exists>Out. simpleFormat Fmt As = Inr Out) \<longleftrightarrow> placeholders Fmt \<le> length As) \<and>
   (length As < placeholders Fmt \<longrightarrow> simpleFormat Fmt As = Inl OutOfBounds) \<and>
   (\<forall>Pieces. Pieces \<noteq> [] \<and> (\<forall>P\<in>set Pieces. placeholders P = 0) \<and>
        Fmt = joinPieces Pieces \<and> length Pieces \<le> Suc (length As) \<longrightarrow>
        simpleFormat Fmt As = Inr (substitute Pieces As)) \<and>
   (splitPieces Fmt \<noteq> [] \<and> (\<forall>P\<in>set (splitPieces Fmt). placeholders P = 0) \<and>
    joinPieces (splitPieces Fmt) = Fmt \<and>
    length (splitPieces Fmt) = Suc (placeholders Fmt)) \<and>
   format \<lparr>message = Fmt, Args = As\<rparr> = simpleFormat Fmt As"
proof (intro conjI)
  show "(\<exists>Out. simpleFormat Fmt As = Inr Out) \<longleftrightarrow> placeholders Fmt \<le> length As"
    using loop_total_iff[of 0 As Fmt "[]"] by (simp add: simpleFormat_def)
  show "length As < placeholders Fmt \<longrightarrow> simpleFormat Fmt As = Inl OutOfBounds"
    using loop_fail[of 0 As Fmt "[]"] by (simp add: simpleFormat_def)
  show "\<forall>Pieces. Pieces \<noteq> [] \<and> (\<forall>P\<in>set Pieces. placeholders P = 0) \<and>
        Fmt = joinPieces Pieces \<and> length Pieces \<le> Suc (length As) \<longrightarrow>
        simpleFormat Fmt As = Inr (substitute Pieces As)"
  proof (intro allI impI)
    fix Pieces
    assume a: "Pieces \<noteq> [] \<and> (\<forall>P\<in>set Pieces. placeholders P = 0) \<and>
        Fmt = joinPieces Pieces \<and> length Pieces \<le> Suc (length As)"
    then show "simpleFormat Fmt As = Inr (substitute Pieces As)"
      using loop_join[of Pieces As 0 "[]"] by (simp add: simpleFormat_def)
  qed
  show "splitPieces Fmt \<noteq> []" by (rule split_nonempty)
  show "\<forall>P\<in>set (splitPieces Fmt). placeholders P = 0" by (simp add: split_clean)
  show "joinPieces (splitPieces Fmt) = Fmt" by (rule join_split)
  show "length (splitPieces Fmt) = Suc (placeholders Fmt)" by (rule length_split)
  show "format \<lparr>message = Fmt, Args = As\<rparr> = simpleFormat Fmt As"
    by (simp add: format_def)
qed

theorem simpleFormat_total_iff_enough_args_witness:
  "placeholders ''a{}b{c}{{}'' = 2 \<and>
   splitPieces ''a{}b{c}{{}'' = [''a'', ''b{c}{'', []] \<and>
   simpleFormat ''a{}b{c}{{}'' [''X'', ''YY''] = Inr ''aXb{c}{YY'' \<and>
   format \<lparr>message = ''a{}b{c}{{}'', Args = [''X'', ''YY'']\<rparr> = Inr ''aXb{c}{YY'' \<and>
   simpleFormat ''a{}b{c}{{}'' [''X''] = Inl OutOfBounds"
  using simpleFormat_total_iff_enough_args[of "''a{}b{c}{{}''" "[''X'', ''YY'']"]
    simpleFormat_total_iff_enough_args[of "''a{}b{c}{{}''" "[''X'']"]
  by (simp add: simpleFormat_def format_def)


section \<open>The bounded vector\<close>

lemma bounded_Nil: "bounded Items [] = (Items, None)"
  by (simp add: bounded_def)

lemma bounded_Cons:
  "bounded Items (X # Xs) =
     (case addItem Items X of Inl Err \<Rightarrow> (Items, Some Err) | Inr Items' \<Rightarrow> bounded Items' Xs)"
proof (cases "MaxCompletionSize \<le> length Items")
  case True
  then show ?thesis by (simp add: bounded_def addItem_def)
next
  case False
  then obtain k where k: "MaxCompletionSize - length Items = Suc k"
    by (cases "MaxCompletionSize - length Items") auto
  then have "MaxCompletionSize - Suc (length Items) = k" by simp
  with False k show ?thesis by (simp add: bounded_def addItem_def)
qed

lemma bounded_append:
  "bounded Items (A @ B) =
     (case bounded Items A of (Items', Some Err) \<Rightarrow> (Items', Some Err)
                            | (Items', None) \<Rightarrow> bounded Items' B)"
proof (induction A arbitrary: Items)
  case Nil
  then show ?case by (simp add: bounded_Nil)
next
  case (Cons X A)
  then show ?case by (simp add: bounded_Cons split: sum.splits)
qed

lemma bounded_empty:
  "bounded [] Cands =
     (take MaxCompletionSize Cands,
      if MaxCompletionSize < length Cands then Some ExceedSizeError else None)"
  by (simp add: bounded_def)

lemma bounded_after:
  "length A \<le> MaxCompletionSize \<Longrightarrow>
   bounded A B = (take MaxCompletionSize (A @ B),
                  if MaxCompletionSize < length (A @ B) then Some ExceedSizeError else None)"
  by (auto simp: bounded_def)


section \<open>Properties of the scope provider\<close>

lemma collectDef_loop_bounded:
  "collectDef_loop Items Ds Prefix = bounded Items (scopeItems Prefix (EnvNode Par Ds))"
proof (induction Ds arbitrary: Items)
  case Nil
  then show ?case by (simp add: scopeItems_def bounded_Nil)
next
  case (Cons D Ds)
  obtain Name Def where D: "D = (Name, Def)" by (cases D)
  have tl: "\<And>Items. collectDef_loop Items Ds Prefix
              = bounded Items (scopeItems Prefix (EnvNode Par Ds))"
    by (rule Cons.IH)
  show ?case unfolding D using tl
    by (simp add: scopeItems_def bounded_Cons split: sum.splits)
qed

lemma reachable_Some:
  "reachable Prefix (Some Env) = reachable Prefix (parent Env) @ scopeItems Prefix Env"
proof (cases Env)
  case (EnvNode Par Ds)
  then show ?thesis by (cases Par) (simp_all add: reachable_def)
qed

lemma collectDef_bounded:
  "collectDef Items Env Prefix = bounded Items (reachable Prefix Env)"
proof (induction Items Env Prefix rule: collectDef.induct)
  case (1 Items Prefix)
  then show ?case by (simp add: reachable_def bounded_Nil)
next
  case (2 Items Env Prefix)
  have loop: "\<And>I. collectDef_loop I (defs Env) Prefix = bounded I (scopeItems Prefix Env)"
    using collectDef_loop_bounded[of _ "defs Env" Prefix "parent Env"] by simp
  show ?case using 2 loop
    by (simp add: reachable_Some bounded_append split: prod.splits option.splits)
qed

lemma complete_bounded:
  "complete up Desc Items = bounded Items (reachable (complete_Prefix Desc) (up Desc))"
  by (simp add: complete_def collectDef_bounded)

text \<open>
  Claim C3, as amended. For every environment chain and every prefix, the scope
  provider, started on an empty vector, emits the first 30 (all of them when there
  are no more than 30) of the bindings whose name starts with the prefix and does
  not start with two underscores, listed scope by scope from the outermost ancestor
  to the scope itself, so that every emitted binding of an ancestor stands before
  every emitted binding of a descendant; it raises the size-exceeded exception
  exactly when there are more than 30 such bindings. On a vector that already
  holds items it appends as many of them as the bound of 30 leaves room for.
\<close>

theorem collectDef_emits_reachable_up_to_bound:
  "collectDef [] Env Prefix =
     (take MaxCompletionSize (reachable Prefix Env),
      if MaxCompletionSize < length (reachable Prefix Env) then Some ExceedSizeError else None) \<and>
   collectDef Items Env Prefix = bounded Items (reachable Prefix Env) \<and>
   reachable Prefix None = [] \<and>
   reachable Prefix (Some E) = reachable Prefix (parent E) @ scopeItems Prefix E \<and>
   (length (reachable Prefix Env) \<le> MaxCompletionSize \<longrightarrow>
      collectDef [] Env Prefix = (reachable Prefix Env, None))"
  by (simp add: collectDef_bounded bounded_empty reachable_Some) (simp add: reachable_def)

theorem collectDef_emits_reachable_up_to_bound_witness:
  "length (reachable ''a'' (Some letScope)) \<le> MaxCompletionSize \<and>
   collectDef [] (Some letScope) ''a'' =
     ([\<lparr>label = ''abort'', kind = Keyword, detail = [], documentation = None, data = []\<rparr>,
       \<lparr>label = ''ab'', kind = Variable, detail = [], documentation = None, data = []\<rparr>], None)"
  using collectDef_emits_reachable_up_to_bound[of "Some letScope" "''a''" "[]" letScope]
  by (simp add: reachable_def letScope_def builtinScope_def scopeItems_def starts_with_def
      getCompletionItemKind_def userDef_def builtinDef_def MaxCompletionSize_def)

text \<open>
  Claim C3 as stated fails: the root scope \<open>wideScope\<close> has 31 bindings, all of
  which start with the empty prefix and none with two underscores, and the provider
  emits 30 of them and raises the size-exceeded exception.
\<close>

theorem collectDef_emits_all_counterexample:
  "parent wideScope = None \<and>
   length (scopeItems [] wideScope) = 31 \<and>
   collectDef [] (Some wideScope) [] =
     (take 30 (scopeItems [] wideScope), Some ExceedSizeError)"
proof -
  have a: "length (scopeItems [] wideScope) = 31"
    by (simp add: wideScope_def scopeItems_def manyNames_def starts_with_def filter_map o_def)
  have b: "reachable [] (Some wideScope) = scopeItems [] wideScope"
    by (simp add: reachable_def wideScope_def)
  have c: "collectDef [] (Some wideScope) [] = bounded [] (scopeItems [] wideScope)"
    using collectDef_bounded[of "[]" "Some wideScope" "[]"] b by simp
  have d: "collectDef [] (Some wideScope) [] =
             (take 30 (scopeItems [] wideScope), Some ExceedSizeError)"
    unfolding c using a by (simp add: bounded_empty MaxCompletionSize_def)
  have p: "parent wideScope = None"
    by (simp add: wideScope_def)
  show ?thesis
    by (intro conjI) (rule p, rule a, rule d)
qed

text \<open>
  Claim C7. In a chain of two scopes where the outer scope binds a name and the
  inner scope binds the same name, completing at the inner scope with the empty
  prefix yields two items with that label, the outer binding first: a shadowed
  name is not removed. (The name must not start with two underscores, as \<open>x\<close> does
  not; such names are never listed.)
\<close>

theorem shadowed_name_listed_twice:
  assumes "\<not> starts_with X ''__''"
  shows "collectDef [] (Some (EnvNode (Some (EnvNode None [(X, D1)])) [(X, D2)])) [] =
           ([\<lparr>label = X, kind = getCompletionItemKind D1, detail = [],
              documentation = None, data = []\<rparr>,
             \<lparr>label = X, kind = getCompletionItemKind D2, detail = [],
              documentation = None, data = []\<rparr>], None) \<and>
         map label (fst (complete (\<lambda>Desc. Some (EnvNode (Some (EnvNode None [(X, D1)])) [(X, D2)]))
                           (OtherNode k) [])) = [X, X]"
  using assms
  by (simp add: complete_def complete_Prefix_def starts_with_def addItem_def MaxCompletionSize_def)

theorem shadowed_name_listed_twice_witness:
  "\<not> starts_with ''x'' ''__'' \<and>
   map label (fst (collectDef [] (Some (EnvNode (Some (EnvNode None [(''x'', userDef)]))
                                      [(''x'', userDef)])) [])) = [''x'', ''x'']"
  using shadowed_name_listed_twice[of "''x''" userDef userDef 0]
  by (simp add: starts_with_def)

text \<open>
  Claim C9. The prefix that \<open>complete\<close> passes to \<open>collectDef\<close> is the name of the
  node under the cursor when that node is an identifier, and the empty string for a
  node of any other kind; every name starts with the empty string, so that then
  every reachable binding passes the prefix test.
\<close>

theorem complete_prefix_is_identifier_text:
  "complete_Prefix (Identifier Name) = Name \<and>
   complete_Prefix (OtherNode k) = [] \<and>
   (Node_kind Desc = NK_Identifer \<longrightarrow> Desc = Identifier (complete_Prefix Desc)) \<and>
   (Node_kind Desc \<noteq> NK_Identifer \<longrightarrow>
      complete_Prefix Desc = [] \<and> (\<forall>N. starts_with N (complete_Prefix Desc))) \<and>
   complete up Desc Items = collectDef Items (up Desc) (complete_Prefix Desc)"
  by (cases Desc) (simp_all add: complete_Prefix_def complete_def starts_with_def)

theorem complete_prefix_is_identifier_text_witness:
  "Node_kind (Identifier ''ab'') = NK_Identifer \<and>
   Node_kind (OtherNode 0) \<noteq> NK_Identifer \<and>
   map label (fst (complete (\<lambda>Desc. Some letScope) (Identifier ''ab'') [])) = [''abort'', ''ab''] \<and>
   map label (fst (complete (\<lambda>Desc. Some letScope) (OtherNode 0) [])) =
     [''abort'', ''map'', ''ab'', ''b'']"
  using complete_prefix_is_identifier_text[of "''ab''" 0 "Identifier ''ab''" "\<lambda>Desc. Some letScope" "[]"]
    complete_prefix_is_identifier_text[of "''ab''" 0 "OtherNode 0" "\<lambda>Desc. Some letScope" "[]"]
  by (simp add: letScope_def builtinScope_def starts_with_def addItem_def MaxCompletionSize_def)


section \<open>Properties of the package provider and of the handlers\<close>

lemma completePackages_loop_bounded:
  "completePackages_loop Ser Params Items Names P = bounded Items (packageItems Ser Params P Names)"
proof (induction Names arbitrary: Items)
  case Nil
  then show ?case by (simp add: packageItems_def bounded_Nil)
next
  case (Cons Name Names)
  have tl: "\<And>Items. completePackages_loop Ser Params Items Names P
              = bounded Items (packageItems Ser Params P Names)"
    by (rule Cons.IH)
  show ?case using tl
    by (simp add: packageItems_def bounded_Cons split: sum.splits)
qed

lemma completePackages_names:
  assumes "attrpathComplete Cl \<lparr>Params_Scope = Scope, Params_Prefix = Prefix\<rparr> = Some (Inr Names)"
  shows "completePackages Ser Moved Cl Scope Prefix Items =
           (case bounded Items
                   (packageItems Ser \<lparr>Params_Scope = Scope, Params_Prefix = Prefix\<rparr> (Moved Prefix) Names) of
              (Items', Exc) \<Rightarrow> Some (Items', Exc, []))"
  using assms
  by (simp add: completePackages_def completePackages_wait_def completePackages_OnReply_def
      completePackages_loop_bounded)

lemma completePackages_error:
  assumes "attrpathComplete Cl \<lparr>Params_Scope = Scope, Params_Prefix = Prefix\<rparr> = Some (Inl Err)"
  shows "completePackages Ser Moved Cl Scope Prefix Items =
           Some (Items, None, [elog ''nixpkgs evaluator reported: {0}'' Err])"
  using assms
  by (simp add: completePackages_def completePackages_wait_def completePackages_OnReply_def)

lemma completePackages_silent:
  assumes "attrpathComplete Cl \<lparr>Params_Scope = Scope, Params_Prefix = Prefix\<rparr> = None"
  shows "completePackages Ser Moved Cl Scope Prefix Items = None"
  using assms
  by (simp add: completePackages_def completePackages_wait_def)

lemma try_overflow:
  assumes "MaxCompletionSize < length (reachable (complete_Prefix Desc) (upEnv C TU Desc))"
  shows "onCompletion_try C Moved TU Desc =
           (Reply \<lparr>isIncomplete = True,
                   items = take MaxCompletionSize (reachable (complete_Prefix Desc) (upEnv C TU Desc))\<rparr>, [])"
  using assms by (simp add: onCompletion_try_def complete_bounded bounded_empty)

lemma try_local:
  assumes "length (reachable (complete_Prefix Desc) (upEnv C TU Desc)) \<le> MaxCompletionSize"
    and "\<not> havePackageScope C TU Desc"
  shows "onCompletion_try C Moved TU Desc =
           (Reply \<lparr>isIncomplete = False,
                   items = reachable (complete_Prefix Desc) (upEnv C TU Desc)\<rparr>, [])"
  using assms by (simp add: onCompletion_try_def complete_bounded bounded_empty)

lemma try_null:
  assumes "length (reachable (complete_Prefix Desc) (upEnv C TU Desc)) \<le> MaxCompletionSize"
    and "havePackageScope C TU Desc" and "nixpkgsClient C = None"
  shows "onCompletion_try C Moved TU Desc = (NullClient, [])"
  using assms by (simp add: onCompletion_try_def complete_bounded bounded_empty)

lemma try_silent:
  assumes "length (reachable (complete_Prefix Desc) (upEnv C TU Desc)) \<le> MaxCompletionSize"
    and "havePackageScope C TU Desc" and "nixpkgsClient C = Some Cl"
    and "getScopeAndPrefix C TU Desc = (Scope, Prefix)"
    and "attrpathComplete Cl \<lparr>Params_Scope = Scope, Params_Prefix = Prefix\<rparr> = None"
  shows "onCompletion_try C Moved TU Desc = (Blocked, [])"
  using assms
  by (simp add: onCompletion_try_def complete_bounded bounded_empty completePackages_silent)

lemma try_error:
  assumes "length (reachable (complete_Prefix Desc) (upEnv C TU Desc)) \<le> MaxCompletionSize"
    and "havePackageScope C TU Desc" and "nixpkgsClient C = Some Cl"
    and "getScopeAndPrefix C TU Desc = (Scope, Prefix)"
    and "attrpathComplete Cl \<lparr>Params_Scope = Scope, Params_Prefix = Prefix\<rparr> = Some (Inl Err)"
  shows "onCompletion_try C Moved TU Desc =
           (Reply \<lparr>isIncomplete = False,
                   items = reachable (complete_Prefix Desc) (upEnv C TU Desc)\<rparr>,
            [elog ''nixpkgs evaluator reported: {0}'' Err])"
  using assms
  by (simp add: onCompletion_try_def complete_bounded bounded_empty completePackages_error)

lemma try_names:
  assumes "length (reachable (complete_Prefix Desc) (upEnv C TU Desc)) \<le> MaxCompletionSize"
    and "havePackageScope C TU Desc" and "nixpkgsClient C = Some Cl"
    and "getScopeAndPrefix C TU Desc = (Scope, Prefix)"
    and "attrpathComplete Cl \<lparr>Params_Scope = Scope, Params_Prefix = Prefix\<rparr> = Some (Inr Names)"
  shows "onCompletion_try C Moved TU Desc =
           (Reply \<lparr>isIncomplete =
                     (MaxCompletionSize <
                        length (reachable (complete_Prefix Desc) (upEnv C TU Desc) @
                                externalItems C Moved TU Desc)),
                   items = take MaxCompletionSize
                            (reachable (complete_Prefix Desc) (upEnv C TU Desc) @
                             externalItems C Moved TU Desc)\<rparr>, [])"
  using assms
  by (simp add: onCompletion_try_def complete_bounded bounded_empty completePackages_names
      bounded_after externalItems_def)

lemma try_reply:
  assumes "onCompletion_try C Moved TU Desc = (Reply L, Log)"
  shows "items L = take MaxCompletionSize
                     (reachable (complete_Prefix Desc) (upEnv C TU Desc) @
                      externalItems C Moved TU Desc) \<and>
         isIncomplete L = (MaxCompletionSize <
                     length (reachable (complete_Prefix Desc) (upEnv C TU Desc) @
                             externalItems C Moved TU Desc))"
proof (cases "MaxCompletionSize < length (reachable (complete_Prefix Desc) (upEnv C TU Desc))")
  case True
  with assms try_overflow[OF True, of Moved] show ?thesis by auto
next
  case small: False
  show ?thesis
  proof (cases "havePackageScope C TU Desc")
    case False
    with small assms try_local[of Desc C TU Moved] show ?thesis
      by (auto simp: externalItems_def)
  next
    case True
    show ?thesis
    proof (cases "nixpkgsClient C")
      case None
      with small True assms try_null[of Desc C TU Moved] show ?thesis by simp
    next
      case (Some Cl)
      obtain Scope Prefix where sp: "getScopeAndPrefix C TU Desc = (Scope, Prefix)"
        by (cases "getScopeAndPrefix C TU Desc")
      show ?thesis
      proof (cases "attrpathComplete Cl \<lparr>Params_Scope = Scope, Params_Prefix = Prefix\<rparr>")
        case None
        with small True Some sp assms try_silent[of Desc C TU Cl Scope Prefix Moved]
        show ?thesis by simp
      next
        case (Some Resp)
        show ?thesis
        proof (cases Resp)
          case (Inl Err)
          with small True \<open>nixpkgsClient C = Some Cl\<close> sp Some assms
            try_error[of Desc C TU Cl Scope Prefix Err Moved]
          show ?thesis by (auto simp: externalItems_def)
        next
          case (Inr Names)
          with small True \<open>nixpkgsClient C = Some Cl\<close> sp Some assms
            try_names[of Desc C TU Cl Scope Prefix Names Moved]
          show ?thesis by auto
        qed
      qed
    qed
  qed
qed

lemma onCompletion_reply:
  assumes "onCompletion C Moved File Pos = (Reply L, Log)"
  shows "\<exists>TU AST Desc. getTU C File = Some TU \<and> getAST C TU = Some AST \<and>
           descend C AST (Pos, Pos) = Some Desc \<and>
           onCompletion_try C Moved TU Desc = (Reply L, Log)"
  using assms by (auto simp: onCompletion_def split: option.splits)


lemma scopeItems_kinds: "I \<in> set (scopeItems Prefix E) \<Longrightarrow> kind I \<noteq> Field"
  by (auto simp: scopeItems_def getCompletionItemKind_def split: if_splits)

lemma reachable_kinds: "I \<in> set (reachable Prefix Env) \<Longrightarrow> kind I \<noteq> Field"
  by (auto simp: reachable_def scopeItems_kinds split: option.splits)

lemma resolvePackage_info:
  "attrpathInfo Cl (Scope @ [Name]) = Some (Inr Desc) \<Longrightarrow>
   resolvePackage Cl Scope Name Item =
     Some (Item
       \<lparr>documentation := Some
          \<lparr>MarkupContent_kind = Markdown,
           MarkupContent_value =
             value_or (Description Desc) [] @ [CHR 0x0A, CHR 0x0A] @
             value_or (LongDescription Desc) []\<rparr>,
        detail := value_or (Version Desc) ''?''\<rparr>)"
  by (simp add: resolvePackage_def resolvePackage_OnReply_def)

lemma resolvePackage_error:
  "attrpathInfo Cl (Scope @ [Name]) = Some (Inl Err) \<Longrightarrow>
   resolvePackage Cl Scope Name Item =
     Some (Item
       \<lparr>documentation := Some
          \<lparr>MarkupContent_kind = Markdown, MarkupContent_value = [CHR 0x0A, CHR 0x0A]\<rparr>,
        detail := ''?''\<rparr>)"
  by (simp add: resolvePackage_def resolvePackage_OnReply_def value_or_def)

lemma resolvePackage_silent:
  "attrpathInfo Cl (Scope @ [Name]) = None \<Longrightarrow> resolvePackage Cl Scope Name Item = None"
  by (simp add: resolvePackage_def)

lemma onCompletionItemResolve_outcomes:
  "(data Params = [] \<longrightarrow> onCompletionItemResolve C Params = Reply Params) \<and>
   (data Params \<noteq> [] \<and> json_parse C (data Params) = Inl Err \<longrightarrow>
      onCompletionItemResolve C Params = ReplyError Err) \<and>
   (data Params \<noteq> [] \<and> json_parse C (data Params) = Inr EV \<and>
    fromJSON C EV \<lparr>Params_Scope = [], Params_Prefix = []\<rparr> = (Decoded, Req) \<and>
    nixpkgsClient C = Some Cl \<longrightarrow>
      onCompletionItemResolve C Params =
        (case resolvePackage Cl (Params_Scope Req) (label Params) Params of
           None \<Rightarrow> Blocked | Some Resp \<Rightarrow> Reply Resp))"
  by (simp add: onCompletionItemResolve_def)

text \<open>
  Claim C6. \<open>resolvePackage\<close> asks for the attribute path \<open>Scope @ [Name]\<close> and,
  from the description the evaluator replies with, sets \<open>detail\<close> to the version,
  or to \<open>?\<close> when there is none, and \<open>documentation\<close> to Markdown content whose
  text is the description, a blank line (two line feeds) and the long description,
  an absent one of the two being the empty text. An absent field is no error, and
  neither is an error reply: the description is then the default one, with all three
  fields absent. The call returns only once the evaluator has replied.
\<close>

theorem resolvePackage_fills_detail_and_documentation:
  "(attrpathInfo Cl (Scope @ [Name]) =
      Some (Inr \<lparr>Description = D, LongDescription = L, Version = V\<rparr>) \<longrightarrow>
    resolvePackage Cl Scope Name Item =
      Some (Item
        \<lparr>documentation := Some
           \<lparr>MarkupContent_kind = Markdown,
            MarkupContent_value =
              (case D of None \<Rightarrow> [] | Some Text \<Rightarrow> Text) @ [CHR 0x0A, CHR 0x0A] @
              (case L of None \<Rightarrow> [] | Some Text \<Rightarrow> Text)\<rparr>,
         detail := (case V of None \<Rightarrow> ''?'' | Some Text \<Rightarrow> Text)\<rparr>)) \<and>
   (attrpathInfo Cl (Scope @ [Name]) = Some (Inl Err) \<longrightarrow>
    resolvePackage Cl Scope Name Item =
      Some (Item
        \<lparr>documentation := Some
           \<lparr>MarkupContent_kind = Markdown, MarkupContent_value = [CHR 0x0A, CHR 0x0A]\<rparr>,
         detail := ''?''\<rparr>)) \<and>
   (attrpathInfo Cl (Scope @ [Name]) = None \<longrightarrow> resolvePackage Cl Scope Name Item = None)"
  by (simp add: resolvePackage_info resolvePackage_error resolvePackage_silent value_or_def)

theorem resolvePackage_fills_detail_and_documentation_witness:
  "attrpathInfo
     (replying None (Some (Inr \<lparr>Description = Some ''A program'', LongDescription = None,
                               Version = None\<rparr>)))
     ([''pkgs''] @ [''hello'']) =
     Some (Inr \<lparr>Description = Some ''A program'', LongDescription = None, Version = None\<rparr>) \<and>
   resolvePackage
     (replying None (Some (Inr \<lparr>Description = Some ''A program'', LongDescription = None,
                               Version = None\<rparr>)))
     [''pkgs''] ''hello''
     \<lparr>label = ''hello'', kind = Field, detail = [], documentation = None, data = ''pkgs.he''\<rparr> =
     Some \<lparr>label = ''hello'', kind = Field, detail = ''?'',
           documentation = Some \<lparr>MarkupContent_kind = Markdown,
                                  MarkupContent_value = ''A program'' @ [CHR 0x0A, CHR 0x0A]\<rparr>,
           data = ''pkgs.he''\<rparr>"
  using resolvePackage_fills_detail_and_documentation
    [of "replying None (Some (Inr \<lparr>Description = Some ''A program'', LongDescription = None,
                                   Version = None\<rparr>))"
        "[''pkgs'']" "''hello''" "Some ''A program''" None None
        "\<lparr>label = ''hello'', kind = Field, detail = [], documentation = None, data = ''pkgs.he''\<rparr>"]
  by (simp add: replying_def)

text \<open>
  Claim C4 asks for an error whenever the data of the item does not parse as a
  query. The handler replies with the error of \<open>llvm::json::parse\<close>, but it drops
  the result of \<open>fromJSON\<close>: for an item whose data is the JSON text \<open>1\<close>, which
  parses and does not decode to a query, it resolves the label in the empty scope
  and replies with the item filled from the evaluator's answer.
\<close>

theorem onCompletionItemResolve_undecoded_data_is_resolved:
  "json_parse (exampleController None False
                 (Some (replying None (Some (Inr \<lparr>Description = None, LongDescription = None,
                                                  Version = Some ''2.12''\<rparr>))))) ''1''
     = Inr ExampleNumber \<and>
   fromJSON (exampleController None False
               (Some (replying None (Some (Inr \<lparr>Description = None, LongDescription = None,
                                                Version = Some ''2.12''\<rparr>)))))
       ExampleNumber \<lparr>Params_Scope = [], Params_Prefix = []\<rparr>
     = (False, \<lparr>Params_Scope = [], Params_Prefix = []\<rparr>) \<and>
   onCompletionItemResolve
     (exampleController None False
        (Some (replying None (Some (Inr \<lparr>Description = None, LongDescription = None,
                                         Version = Some ''2.12''\<rparr>)))))
     \<lparr>label = ''hello'', kind = Field, detail = [], documentation = None, data = ''1''\<rparr> =
   Reply \<lparr>label = ''hello'', kind = Field, detail = ''2.12'',
          documentation = Some \<lparr>MarkupContent_kind = Markdown,
                                 MarkupContent_value = [CHR 0x0A, CHR 0x0A]\<rparr>,
          data = ''1''\<rparr>"
  by (simp add: onCompletionItemResolve_def exampleController_def exampleParse_def
      resolvePackage_def resolvePackage_OnReply_def replying_def value_or_def)

text \<open>
  Claim C8. When the translation unit and its tree are found and no node covers the
  position, \<open>onCompletion\<close> replies with the error
  \<open>cannot find corresponding node on given position\<close>; it logs nothing and replies
  with no list.
\<close>

theorem onCompletion_no_node_is_error:
  assumes "getTU C File = Some TU" and "getAST C TU = Some AST"
    and "descend C AST (Pos, Pos) = None"
  shows "onCompletion C Moved File Pos =
           (ReplyError (Error ''cannot find corresponding node on given position''), []) \<and>
         (\<forall>L. fst (onCompletion C Moved File Pos) \<noteq> Reply L)"
  using assms by (simp add: onCompletion_def)

theorem onCompletion_no_node_is_error_witness:
  "getTU (exampleController (Some letScope) False None) ''/a.nix'' = Some () \<and>
   getAST (exampleController (Some letScope) False None) () = Some () \<and>
   descend (exampleController (Some letScope) False None) () (2, 2) = None \<and>
   onCompletion (exampleController (Some letScope) False None) movedEmpty ''/a.nix'' 2 =
     (ReplyError (Error ''cannot find corresponding node on given position''), [])"
  using onCompletion_no_node_is_error
    [of "exampleController (Some letScope) False None" "''/a.nix''" "()" "()" 2 movedEmpty]
  by (simp add: exampleController_def)

text \<open>
  What \<open>completePackages\<close> does with a reply that is a list of names, for every
  state the move may leave the local prefix in: it offers to the vector, in the
  order of the reply, the names that start with that moved-from string, each as an
  item of kind \<open>Field\<close> whose data is the serialisation of the query that was sent,
  and the vector takes them while it holds fewer than 30 items.
\<close>

lemma completePackages_names_up_to_bound:
  assumes "attrpathComplete Cl \<lparr>Params_Scope = Scope, Params_Prefix = Prefix\<rparr> = Some (Inr Names)"
  shows "completePackages Ser Moved Cl Scope Prefix Items =
           Some (Items @
                 take (MaxCompletionSize - length Items)
                   (map (\<lambda>Name. \<lparr>label = Name, kind = Field, detail = [], documentation = None,
                                 data = Ser \<lparr>Params_Scope = Scope, Params_Prefix = Prefix\<rparr>\<rparr>)
                      (filter (\<lambda>Name. starts_with Name (Moved Prefix)) Names)),
                 (if MaxCompletionSize - length Items
                       < length (filter (\<lambda>Name. starts_with Name (Moved Prefix)) Names)
                  then Some ExceedSizeError else None),
                 [])"
  using completePackages_names[OF assms, of Ser Moved Items]
  by (simp add: bounded_def packageItems_def)

text \<open>
  Where the move leaves the local prefix empty, the test lets every name pass: the
  names of the reply are offered whatever prefix the query was sent with.
\<close>

lemma completePackages_moved_from_empty:
  assumes "attrpathComplete Cl \<lparr>Params_Scope = Scope, Params_Prefix = Prefix\<rparr> = Some (Inr Names)"
    and "Moved Prefix = []"
  shows "completePackages Ser Moved Cl Scope Prefix [] =
           Some (take MaxCompletionSize
                   (map (\<lambda>Name. \<lparr>label = Name, kind = Field, detail = [], documentation = None,
                                 data = Ser \<lparr>Params_Scope = Scope, Params_Prefix = Prefix\<rparr>\<rparr>)
                      Names),
                 (if MaxCompletionSize < length Names then Some ExceedSizeError else None),
                 [])"
  using completePackages_names[OF assms(1), of Ser Moved "[]"] assms(2)
  by (simp add: bounded_empty packageItems_def starts_with_def)

text \<open>
  Claim C1 asks that of a reply exactly the names that start with the prefix of the
  query are inserted. The source moves \<open>Prefix\<close> into the query and tests
  \<open>Name.starts_with(Prefix)\<close> afterwards, on the string that was moved from. With
  that string left empty, as the standard libraries leave it, the test filters
  nothing: to the query with scope \<open>pkgs\<close> and prefix \<open>he\<close> the evaluator replies
  with \<open>hello\<close>, \<open>zsh\<close> and \<open>hexdump\<close>, and \<open>zsh\<close>, which does not start with
  \<open>he\<close>, is inserted between the other two. Each item is of kind \<open>Field\<close> and
  carries the serialisation of the query that was sent.
\<close>

theorem completePackages_inserts_name_without_prefix:
  "attrpathComplete (replying (Some (Inr [''hello'', ''zsh'', ''hexdump''])) None)
     \<lparr>Params_Scope = [''pkgs''], Params_Prefix = ''he''\<rparr> =
     Some (Inr [''hello'', ''zsh'', ''hexdump'']) \<and>
   \<not> starts_with ''zsh'' ''he'' \<and>
   completePackages exampleSer movedEmpty
     (replying (Some (Inr [''hello'', ''zsh'', ''hexdump''])) None) [''pkgs''] ''he'' [] =
   Some ([\<lparr>label = ''hello'', kind = Field, detail = [], documentation = None, data = ''pkgs.he''\<rparr>,
          \<lparr>label = ''zsh'', kind = Field, detail = [], documentation = None, data = ''pkgs.he''\<rparr>,
          \<lparr>label = ''hexdump'', kind = Field, detail = [], documentation = None, data = ''pkgs.he''\<rparr>],
         None, [])"
  by (simp add: replying_def starts_with_def exampleSer_def movedEmpty_def completePackages_def
      completePackages_wait_def completePackages_OnReply_def addItem_def MaxCompletionSize_def)

text \<open>
  Claim C2. Every list that \<open>onCompletion\<close> replies with holds at most 30 items.
  The providers offer their candidates to the vector in order: the reachable
  bindings, then the names of the evaluator's reply when the node is in a package
  scope; an offer is refused exactly when the vector already holds 30. The list is
  the first 30 candidates, and \<open>isIncomplete\<close> is set if and only if there are more
  than 30, that is, if and only if an offer was refused. In particular more than 30
  matching local bindings give a reply of exactly 30 items with \<open>isIncomplete\<close>
  set.
\<close>

theorem completion_list_bounded_and_incomplete_iff_rejected:
  "(onCompletion C Moved File Pos = (Reply L, Log) \<longrightarrow> length (items L) \<le> MaxCompletionSize) \<and>
   (getTU C File = Some TU \<and> getAST C TU = Some AST \<and> descend C AST (Pos, Pos) = Some Desc \<longrightarrow>
      (onCompletion C Moved File Pos = (Reply L, Log) \<longrightarrow>
         items L = take MaxCompletionSize
                     (reachable (complete_Prefix Desc) (upEnv C TU Desc) @
                      externalItems C Moved TU Desc) \<and>
         (isIncomplete L \<longleftrightarrow>
            MaxCompletionSize <
              length (reachable (complete_Prefix Desc) (upEnv C TU Desc) @
                      externalItems C Moved TU Desc))) \<and>
      (MaxCompletionSize < length (reachable (complete_Prefix Desc) (upEnv C TU Desc)) \<longrightarrow>
         onCompletion C Moved File Pos =
           (Reply \<lparr>isIncomplete = True,
                   items = take MaxCompletionSize
                             (reachable (complete_Prefix Desc) (upEnv C TU Desc))\<rparr>, []) \<and>
         length (take MaxCompletionSize
                   (reachable (complete_Prefix Desc) (upEnv C TU Desc))) = MaxCompletionSize))"
proof (intro conjI impI)
  assume r: "onCompletion C Moved File Pos = (Reply L, Log)"
  from onCompletion_reply[OF r] obtain TU' Desc' where
    "onCompletion_try C Moved TU' Desc' = (Reply L, Log)"
    by blast
  from try_reply[OF this] show "length (items L) \<le> MaxCompletionSize" by simp
next
  assume f: "getTU C File = Some TU \<and> getAST C TU = Some AST \<and>
             descend C AST (Pos, Pos) = Some Desc"
    and r: "onCompletion C Moved File Pos = (Reply L, Log)"
  then have t: "onCompletion_try C Moved TU Desc = (Reply L, Log)"
    by (simp add: onCompletion_def)
  from try_reply[OF t]
  show "items L = take MaxCompletionSize
                     (reachable (complete_Prefix Desc) (upEnv C TU Desc) @
                      externalItems C Moved TU Desc)" by simp
  from try_reply[OF t]
  show "isIncomplete L \<longleftrightarrow>
            MaxCompletionSize <
              length (reachable (complete_Prefix Desc) (upEnv C TU Desc) @
                      externalItems C Moved TU Desc)" by simp
next
  assume f: "getTU C File = Some TU \<and> getAST C TU = Some AST \<and>
             descend C AST (Pos, Pos) = Some Desc"
    and m: "MaxCompletionSize < length (reachable (complete_Prefix Desc) (upEnv C TU Desc))"
  from f have "onCompletion C Moved File Pos = onCompletion_try C Moved TU Desc"
    by (simp add: onCompletion_def)
  then show "onCompletion C Moved File Pos =
           (Reply \<lparr>isIncomplete = True,
                   items = take MaxCompletionSize
                             (reachable (complete_Prefix Desc) (upEnv C TU Desc))\<rparr>, [])"
    using try_overflow[OF m, of Moved] by simp
  from m show "length (take MaxCompletionSize
                   (reachable (complete_Prefix Desc) (upEnv C TU Desc))) = MaxCompletionSize"
    by simp
qed

lemma reach_wide: "length (reachable [] (Some wideScope)) = 31"
  by (simp add: reachable_def wideScope_def scopeItems_def manyNames_def starts_with_def
      filter_map o_def)

theorem completion_list_bounded_and_incomplete_iff_rejected_witness:
  "getTU (exampleController (Some wideScope) False None) ''/a.nix'' = Some () \<and>
   getAST (exampleController (Some wideScope) False None) () = Some () \<and>
   descend (exampleController (Some wideScope) False None) () (1, 1) = Some (OtherNode 0) \<and>
   MaxCompletionSize < length (reachable (complete_Prefix (OtherNode 0))
        (upEnv (exampleController (Some wideScope) False None) () (OtherNode 0))) \<and>
   onCompletion (exampleController (Some wideScope) False None) movedEmpty ''/a.nix'' 1 =
     (Reply \<lparr>isIncomplete = True,
             items = take 30 (reachable [] (Some wideScope))\<rparr>, []) \<and>
   length (take 30 (reachable [] (Some wideScope))) = 30"
  using completion_list_bounded_and_incomplete_iff_rejected
    [of "exampleController (Some wideScope) False None" movedEmpty "''/a.nix''" 1
        "\<lparr>isIncomplete = True, items = take 30 (reachable [] (Some wideScope))\<rparr>" "[]"
        "()" "()" "OtherNode 0"]
    reach_wide
  by (simp add: exampleController_def complete_Prefix_def MaxCompletionSize_def)

text \<open>
  Claim C5. When the node is in a package scope and the evaluator answers the
  completion query with an error, the callback logs the error and releases the
  semaphore with \<open>Names\<close> still empty, \<open>completePackages\<close> returns the vector as it
  was, and \<open>onCompletion\<close> replies with the list it would reply with outside a
  package scope: the local items, none of kind \<open>Field\<close>, with \<open>isIncomplete\<close> set
  only when more than 30 local bindings match.
\<close>

theorem evaluator_error_leaves_local_items:
  assumes "getTU C File = Some TU" and "getAST C TU = Some AST"
    and "descend C AST (Pos, Pos) = Some Desc"
    and "havePackageScope C TU Desc" and "nixpkgsClient C = Some Cl"
    and "getScopeAndPrefix C TU Desc = (Scope, Prefix)"
    and "attrpathComplete Cl \<lparr>Params_Scope = Scope, Params_Prefix = Prefix\<rparr> = Some (Inl Err)"
  shows "completePackages_wait Cl \<lparr>Params_Scope = Scope, Params_Prefix = Prefix\<rparr> =
           (1, [], [elog ''nixpkgs evaluator reported: {0}'' Err]) \<and>
         completePackages Ser Moved Cl Scope Prefix Items =
           Some (Items, None, [elog ''nixpkgs evaluator reported: {0}'' Err]) \<and>
         fst (onCompletion C Moved File Pos) =
           Reply \<lparr>isIncomplete =
                    (MaxCompletionSize <
                       length (reachable (complete_Prefix Desc) (upEnv C TU Desc))),
                  items = take MaxCompletionSize
                            (reachable (complete_Prefix Desc) (upEnv C TU Desc))\<rparr> \<and>
         fst (onCompletion C Moved File Pos) =
           fst (onCompletion (C\<lparr>havePackageScope := \<lambda>TU Desc. False\<rparr>) Moved File Pos) \<and>
         (length (reachable (complete_Prefix Desc) (upEnv C TU Desc)) \<le> MaxCompletionSize \<longrightarrow>
            onCompletion C Moved File Pos =
              (Reply \<lparr>isIncomplete = False,
                      items = reachable (complete_Prefix Desc) (upEnv C TU Desc)\<rparr>,
               [elog ''nixpkgs evaluator reported: {0}'' Err])) \<and>
         (\<forall>L. fst (onCompletion C Moved File Pos) = Reply L \<longrightarrow>
              (\<forall>I\<in>set (items L). kind I \<noteq> Field))"
proof -
  let ?local = "reachable (complete_Prefix Desc) (upEnv C TU Desc)"
  let ?C' = "C\<lparr>havePackageScope := \<lambda>TU Desc. False\<rparr>"
  have on: "onCompletion C Moved File Pos = onCompletion_try C Moved TU Desc"
    using assms(1-3) by (simp add: onCompletion_def)
  have on': "onCompletion ?C' Moved File Pos = onCompletion_try ?C' Moved TU Desc"
    using assms(1-3) by (simp add: onCompletion_def)
  have w: "completePackages_wait Cl \<lparr>Params_Scope = Scope, Params_Prefix = Prefix\<rparr> =
           (1, [], [elog ''nixpkgs evaluator reported: {0}'' Err])"
    using assms(7) by (simp add: completePackages_wait_def completePackages_OnReply_def)
  have cp: "completePackages Ser Moved Cl Scope Prefix Items =
           Some (Items, None, [elog ''nixpkgs evaluator reported: {0}'' Err])"
    using assms(7) by (rule completePackages_error)
  have big: "MaxCompletionSize < length ?local \<Longrightarrow>
      onCompletion_try C Moved TU Desc =
        (Reply \<lparr>isIncomplete = True, items = take MaxCompletionSize ?local\<rparr>, [])"
    by (rule try_overflow)
  have big': "MaxCompletionSize < length ?local \<Longrightarrow>
      onCompletion_try ?C' Moved TU Desc =
        (Reply \<lparr>isIncomplete = True, items = take MaxCompletionSize ?local\<rparr>, [])"
    using try_overflow[of Desc ?C' TU Moved] by simp
  have small: "length ?local \<le> MaxCompletionSize \<Longrightarrow>
      onCompletion_try C Moved TU Desc =
        (Reply \<lparr>isIncomplete = False, items = ?local\<rparr>,
         [elog ''nixpkgs evaluator reported: {0}'' Err])"
    using try_error[OF _ assms(4-7), of Moved] by simp
  have small': "length ?local \<le> MaxCompletionSize \<Longrightarrow>
      onCompletion_try ?C' Moved TU Desc =
        (Reply \<lparr>isIncomplete = False, items = ?local\<rparr>, [])"
    using try_local[of Desc ?C' TU Moved] by simp
  have r: "fst (onCompletion C Moved File Pos) =
           Reply \<lparr>isIncomplete = (MaxCompletionSize < length ?local),
                  items = take MaxCompletionSize ?local\<rparr>"
    using big small by (cases "MaxCompletionSize < length ?local") (simp_all add: on)
  have r': "fst (onCompletion ?C' Moved File Pos) =
           Reply \<lparr>isIncomplete = (MaxCompletionSize < length ?local),
                  items = take MaxCompletionSize ?local\<rparr>"
    using big' small' by (cases "MaxCompletionSize < length ?local") (simp_all add: on')
  have k: "\<forall>L. fst (onCompletion C Moved File Pos) = Reply L \<longrightarrow>
              (\<forall>I\<in>set (items L). kind I \<noteq> Field)"
    unfolding r using reachable_kinds by (auto dest: in_set_takeD)
  show ?thesis using w cp r r' small k by (simp add: on)
qed

theorem evaluator_error_leaves_local_items_witness:
  "getTU (exampleController (Some letScope) True (Some (replying (Some (Inl (Error ''eval''))) None)))
     ''/a.nix'' = Some () \<and>
   descend (exampleController (Some letScope) True (Some (replying (Some (Inl (Error ''eval''))) None)))
     () (0, 0) = Some (Identifier ''a'') \<and>
   attrpathComplete (replying (Some (Inl (Error ''eval''))) None)
     \<lparr>Params_Scope = [''pkgs''], Params_Prefix = ''a''\<rparr> = Some (Inl (Error ''eval'')) \<and>
   onCompletion
     (exampleController (Some letScope) True (Some (replying (Some (Inl (Error ''eval''))) None)))
     movedEmpty ''/a.nix'' 0 =
     (Reply \<lparr>isIncomplete = False,
             items =
               [\<lparr>label = ''abort'', kind = Keyword, detail = [], documentation = None, data = []\<rparr>,
                \<lparr>label = ''ab'', kind = Variable, detail = [], documentation = None, data = []\<rparr>]\<rparr>,
      [elog ''nixpkgs evaluator reported: {0}'' (Error ''eval'')])"
  using evaluator_error_leaves_local_items
    [of "exampleController (Some letScope) True (Some (replying (Some (Inl (Error ''eval''))) None))"
        "''/a.nix''" "()" "()" 0 "Identifier ''a''"
        "replying (Some (Inl (Error ''eval''))) None" "[''pkgs'']" "''a''" "Error ''eval''"
        exampleSer movedEmpty "[]"]
  by (simp add: exampleController_def replying_def complete_Prefix_def reachable_def
      letScope_def builtinScope_def scopeItems_def starts_with_def getCompletionItemKind_def
      userDef_def builtinDef_def MaxCompletionSize_def)

end
